theory Spec2Isabelle
  imports Main "HOL-Library.Word" "HOL-Library.Sublist"
begin

unbundle bit_operations_syntax

section \<open>Memory: bytes, byte order, C strings\<close>

text \<open>
  \<open>ip.c\<close> looks at the same storage through differently typed pointers: the received
  buffer \<open>uint8_t data[]\<close> is read as \<open>struct ip_hdr\<close>, and an \<open>ip_addr_t\<close> (a
  \<open>uint32_t\<close>) is written and read octet by octet through \<open>(uint8_t *)\<close>. What such
  an access yields depends on the byte order of the host, which is therefore a parameter
  of every definition that performs one.
\<close>

datatype endian = LittleEndian | BigEndian

type_synonym ip_addr_t = "32 word"
type_synonym ptr = nat

text \<open>Bit position of octet \<open>i\<close> (\<open>i < 4\<close>) inside a 32-bit object in memory.\<close>

definition octet_shift :: "endian \<Rightarrow> nat \<Rightarrow> nat" where
  "octet_shift e i = (case e of LittleEndian \<Rightarrow> 8 * i | BigEndian \<Rightarrow> 8 * (3 - i))"

text \<open>\<open>((uint8_t * )&n)[i]\<close>, read and written.\<close>

definition load_u8 :: "endian \<Rightarrow> ip_addr_t \<Rightarrow> nat \<Rightarrow> 8 word" where
  "load_u8 e n i = ucast (drop_bit (octet_shift e i) n)"

definition store_u8 :: "endian \<Rightarrow> ip_addr_t \<Rightarrow> nat \<Rightarrow> 8 word \<Rightarrow> ip_addr_t" where
  "store_u8 e n i b =
     (n AND NOT (push_bit (octet_shift e i) 0xff)) OR push_bit (octet_shift e i) (ucast b)"

text \<open>A \<open>uint16_t\<close> and a \<open>uint32_t\<close> read from consecutive bytes of a buffer.\<close>

definition load16 :: "endian \<Rightarrow> 8 word \<Rightarrow> 8 word \<Rightarrow> 16 word" where
  "load16 e b0 b1 = (case e of BigEndian \<Rightarrow> word_cat b0 b1 | LittleEndian \<Rightarrow> word_cat b1 b0)"

definition load32 :: "endian \<Rightarrow> 8 word \<Rightarrow> 8 word \<Rightarrow> 8 word \<Rightarrow> 8 word \<Rightarrow> ip_addr_t" where
  "load32 e b0 b1 b2 b3 =
     store_u8 e (store_u8 e (store_u8 e (store_u8 e 0 0 b0) 1 b1) 2 b2) 3 b3"

text \<open>
  A C string is the characters up to the first NUL. A \<open>string\<close> stands for the memory a
  \<open>char *\<close> points to; reading at its end yields the terminator.
\<close>

definition NUL :: char where
  "NUL = CHR 0x00"

definition deref :: "string \<Rightarrow> char" where
  "deref p = (case p of [] \<Rightarrow> NUL | c # _ \<Rightarrow> c)"

definition cstr :: "string \<Rightarrow> string" where
  "cstr p = takeWhile (\<lambda>c. c \<noteq> NUL) p"

section \<open>The C library functions used by the address codec\<close>

definition isspace :: "char \<Rightarrow> bool" where
  "isspace c \<longleftrightarrow> c \<in> {CHR '' '', CHR 0x09, CHR 0x0A, CHR 0x0B, CHR 0x0C, CHR 0x0D}"

definition isdigit :: "char \<Rightarrow> bool" where
  "isdigit c \<longleftrightarrow> 48 \<le> (of_char c :: nat) \<and> (of_char c :: nat) \<le> 57"

definition digit_val :: "char \<Rightarrow> int" where
  "digit_val c = int (of_char c) - 48"

definition LONG_MAX :: int where
  "LONG_MAX = 2 ^ 63 - 1"

definition LONG_MIN :: int where
  "LONG_MIN = - (2 ^ 63)"

text \<open>The digit loop of \<open>strtol\<close>: the value read so far and the rest of the text.\<close>

fun strtol_digits :: "int \<Rightarrow> string \<Rightarrow> int \<times> string" where
  "strtol_digits acc [] = (acc, [])"
| "strtol_digits acc (c # cs) =
     (if isdigit c then strtol_digits (acc * 10 + digit_val c) cs else (acc, c # cs))"

text \<open>
  \<open>strtol(nptr, &endptr, 10)\<close>: white space is skipped, one sign is taken, then the
  digits. The result is the value, clamped to the range of \<open>long\<close>, and \<open>endptr\<close>, the
  text after the last digit. Without any digit the value is 0 and \<open>endptr\<close> is \<open>nptr\<close>.
\<close>

definition strtol :: "string \<Rightarrow> int \<times> string" where
  "strtol nptr =
     (let s1 = dropWhile isspace nptr;
          neg = (deref s1 = CHR ''-'');
          s2 = (if deref s1 = CHR ''-'' \<or> deref s1 = CHR ''+'' then tl s1 else s1)
      in if \<not> isdigit (deref s2) then (0, nptr)
         else let (v, endptr) = strtol_digits 0 s2;
                  r = (if neg then - v else v)
              in (max LONG_MIN (min LONG_MAX r), endptr))"

text \<open>The conversion \<open>%d\<close> of a value that is not negative.\<close>

fun dec :: "nat \<Rightarrow> string" where
  "dec n = (if n < 10 then [char_of (48 + n)] else dec (n div 10) @ [char_of (48 + n mod 10)])"

declare dec.simps [simp del]

text \<open>
  \<open>snprintf(p, size, ...)\<close> for a rendering \<open>s\<close>: the bytes stored at \<open>p\<close>. At most
  \<open>size - 1\<close> characters and the terminator; nothing when \<open>size\<close> is 0.
\<close>

definition snprintf :: "nat \<Rightarrow> string \<Rightarrow> string" where
  "snprintf sz s = (if sz = 0 then [] else take (sz - 1) s @ [NUL])"

section \<open>AddressCodec: \<open>ip_addr_pton\<close> and \<open>ip_addr_ntop\<close>\<close>

definition IP_ADDR_ANY :: ip_addr_t where
  "IP_ADDR_ANY = 0x00000000"

definition IP_ADDR_BROADCAST :: ip_addr_t where
  "IP_ADDR_BROADCAST = 0xffffffff"

text \<open>
  The loop of \<open>ip_addr_pton\<close>, from the state \<open>(idx, sp, *n)\<close>. It yields the return
  code, the value of \<open>idx\<close> at the return, and the object \<open>n\<close> points to. The pointers
  \<open>sp\<close> and \<open>ep\<close> are the text from their position on; \<open>ep\<close> is a suffix of \<open>sp\<close>
  (\<open>strtol_suffix\<close> below), so \<open>ep == sp\<close> is equality of the two texts.
\<close>

function pton_loop :: "endian \<Rightarrow> nat \<Rightarrow> string \<Rightarrow> ip_addr_t \<Rightarrow> int \<times> nat \<times> ip_addr_t" where
  "pton_loop e idx sp n =
     (if idx < 4 then
        (let (ret, ep) = strtol sp in
         if ret < 0 \<or> ret > 255 then (- 1, idx, n)
         else if ep = sp then (- 1, idx, n)
         else if (idx = 3 \<and> deref ep \<noteq> NUL) \<or> (idx \<noteq> 3 \<and> deref ep \<noteq> CHR ''.'')
           then (- 1, idx, n)
         else pton_loop e (idx + 1) (tl ep) (store_u8 e n idx (word_of_int ret)))
      else (0, idx, n))"
  by pat_completeness auto
termination
  by (relation "measure (\<lambda>(e, idx, sp, n). 4 - idx)") auto

declare pton_loop.simps [simp del]

definition ip_addr_pton :: "endian \<Rightarrow> string \<Rightarrow> ip_addr_t \<Rightarrow> int \<times> ip_addr_t" where
  "ip_addr_pton e p n = (case pton_loop e 0 p n of (rc, idx, n') \<Rightarrow> (rc, n'))"

text \<open>The text \<open>"%d.%d.%d.%d"\<close> of \<open>u8[0]\<close>, ..., \<open>u8[3]\<close>.\<close>

definition dotted :: "endian \<Rightarrow> ip_addr_t \<Rightarrow> string" where
  "dotted e n =
     dec (unat (load_u8 e n 0)) @ ''.'' @ dec (unat (load_u8 e n 1)) @ ''.'' @
     dec (unat (load_u8 e n 2)) @ ''.'' @ dec (unat (load_u8 e n 3))"

text \<open>\<open>ip_addr_ntop\<close>: the pointer returned and the bytes stored at \<open>p\<close>.\<close>

definition ip_addr_ntop :: "endian \<Rightarrow> ip_addr_t \<Rightarrow> ptr \<Rightarrow> nat \<Rightarrow> ptr \<times> string" where
  "ip_addr_ntop e n p sz = (p, snprintf sz (dotted e n))"

section \<open>InterfaceRegistry\<close>

text \<open>
  \<open>struct ip_iface\<close> is declared in \<open>ip.h\<close>, which is not part of the source at hand;
  the fields are those \<open>ip.c\<close> uses: \<open>NET_IFACE(iface)->family\<close>, \<open>iface->next\<close>,
  \<open>iface->unicast\<close>, \<open>iface->netmask\<close> and \<open>iface->broadcast\<close>.

  Modelled from the spec: the link \<open>nif_next\<close> of the per-device list inside the same
  node ("registry list and per-device list sharing the same node"); only \<open>net.c\<close>, which
  is absent, follows it.
\<close>

record ip_iface =
  nif_next :: "ptr option"
  family :: int
  iface_next :: "ptr option"
  unicast :: ip_addr_t
  netmask :: ip_addr_t
  broadcast :: ip_addr_t

text \<open>Of \<open>struct net_device\<close> (\<open>net.h\<close>), \<open>ip.c\<close> uses \<open>dev->name\<close> and \<open>dev->ifaces\<close>.\<close>

record net_device =
  dev_name :: string
  dev_ifaces :: "ptr option"

text \<open>
  The objects reachable through pointers, shared with \<open>net.c\<close>: interfaces and devices,
  each at its address. \<open>NULL\<close> is \<open>None\<close>.
\<close>

record memory =
  ifc :: "ptr \<rightharpoonup> ip_iface"
  dev :: "ptr \<rightharpoonup> net_device"

text \<open>
  The state \<open>ip.c\<close> works on: its file-local list head \<open>static struct ip_iface *ifaces\<close>,
  which no other translation unit can name, and the shared memory.
\<close>

record ip_state =
  ifaces :: "ptr option"
  mem :: memory

text \<open>Modelled from the spec: the constant \<open>NET_IFACE_FAMILY_IP\<close> of \<open>net.h\<close>, an opaque tag.\<close>

definition NET_IFACE_FAMILY_IP :: int where
  "NET_IFACE_FAMILY_IP = 1"

definition memory_free :: "ptr \<Rightarrow> (ptr \<rightharpoonup> ip_iface) \<Rightarrow> (ptr \<rightharpoonup> ip_iface)" where
  "memory_free p h = h(p := None)"

text \<open>
  \<open>ip_iface_alloc\<close>. The platform's \<open>memory_alloc\<close> is not part of the source; what it
  returned is the parameter \<open>alloc\<close>: \<open>None\<close> for \<open>NULL\<close>, or the address of a new
  object and its initial contents. The locals \<open>uni\<close> and \<open>mask\<close> are not initialised in
  the C code; what they hold before the calls of \<open>ip_addr_pton\<close> are the parameters
  \<open>uni0\<close> and \<open>mask0\<close>. The result is the pointer returned and the interface objects
  after the call. (The \<open>errorf\<close> lines are not modelled.)
\<close>

definition ip_iface_alloc ::
  "endian \<Rightarrow> (ptr \<times> ip_iface) option \<Rightarrow> ip_addr_t \<Rightarrow> ip_addr_t \<Rightarrow> string \<Rightarrow> string \<Rightarrow>
   (ptr \<rightharpoonup> ip_iface) \<Rightarrow> ptr option \<times> (ptr \<rightharpoonup> ip_iface)" where
  "ip_iface_alloc e alloc uni0 mask0 unicast_text netmask_text h =
     (case alloc of
        None \<Rightarrow> (None, h)
      | Some (iface, obj0) \<Rightarrow>
          let obj1 = obj0\<lparr>family := NET_IFACE_FAMILY_IP\<rparr>;
              (r1, uni) = ip_addr_pton e unicast_text uni0
          in if r1 = - 1 then (None, memory_free iface (h(iface \<mapsto> obj1)))
             else
               let obj2 = obj1\<lparr>unicast := uni\<rparr>;
                   (r2, mask) = ip_addr_pton e netmask_text mask0
               in if r2 = - 1 then (None, memory_free iface (h(iface \<mapsto> obj2)))
                  else
                    let obj3 = obj2\<lparr>netmask := mask\<rparr>;
                        obj4 = obj3\<lparr>broadcast := (uni AND mask) OR (NOT mask)\<rparr>
                    in (Some iface, h(iface \<mapsto> obj4)))"

text \<open>
  \<open>ip_iface_register\<close>. \<open>net_device_add_iface\<close> belongs to \<open>net.c\<close> and is a parameter:
  from the shared memory, the device and the interface it yields its return code and the
  memory it leaves, or \<open>None\<close> when it does not return. It cannot reach \<open>ifaces\<close>. The
  result of \<open>ip_iface_register\<close> is \<open>None\<close> when that call does not return or when
  \<open>dev\<close> or \<open>iface\<close> does not point to an object. (The log lines are not modelled.)
\<close>

definition ip_iface_register ::
  "(memory \<Rightarrow> ptr \<Rightarrow> ptr \<Rightarrow> (int \<times> memory) option) \<Rightarrow> ptr \<Rightarrow> ptr \<Rightarrow> ip_state \<Rightarrow>
   (int \<times> ip_state) option" where
  "ip_iface_register net_device_add_iface d iface st =
     (case net_device_add_iface (mem st) d iface of
        None \<Rightarrow> None
      | Some (rc, m) \<Rightarrow>
          if rc \<noteq> 0 then Some (- 1, st\<lparr>mem := m\<rparr>)
          else
            (case (dev m d, ifc m iface) of
               (Some dv, Some obj) \<Rightarrow>
                 let m1 = m\<lparr>ifc := (ifc m)(iface \<mapsto> obj\<lparr>iface_next := dev_ifaces dv\<rparr>)\<rparr>;
                     m2 = m1\<lparr>dev := (dev m1)(d \<mapsto> dv\<lparr>dev_ifaces := Some iface\<rparr>)\<rparr>
                 in Some (0, st\<lparr>mem := m2\<rparr>)
             | _ \<Rightarrow> None))"

text \<open>
  The loop of \<open>ip_iface_select\<close> from \<open>entry\<close>: \<open>Some r\<close> when it returns \<open>r\<close>, \<open>None\<close>
  when it follows a pointer to no object or runs round a cyclic list for ever.
\<close>

partial_function (option) iface_scan ::
  "(ptr \<rightharpoonup> ip_iface) \<Rightarrow> ip_addr_t \<Rightarrow> ptr option \<Rightarrow> ptr option option" where
  "iface_scan h addr entry =
     (case entry of
        None \<Rightarrow> Some None
      | Some p \<Rightarrow>
          (case h p of
             None \<Rightarrow> None
           | Some obj \<Rightarrow>
               if unicast obj = addr \<or> broadcast obj = addr then Some (Some p)
               else iface_scan h addr (iface_next obj)))"

definition ip_iface_select :: "ip_state \<Rightarrow> ip_addr_t \<Rightarrow> ptr option option" where
  "ip_iface_select st addr = iface_scan (ifc (mem st)) addr (ifaces st)"

text \<open>
  Modelled from the spec: \<open>net_device_add_iface\<close> of \<open>net.c\<close>, which is absent. The
  device rejects the interface when "the device already has an interface of this family
  bound, or the device is invalid"; otherwise the interface is put on the device's list.
  \<open>family_scan\<close> is the search of the device's list for a family.
\<close>

partial_function (option) family_scan ::
  "(ptr \<rightharpoonup> ip_iface) \<Rightarrow> int \<Rightarrow> ptr option \<Rightarrow> ptr option option" where
  "family_scan h fam entry =
     (case entry of
        None \<Rightarrow> Some None
      | Some p \<Rightarrow>
          (case h p of
             None \<Rightarrow> None
           | Some obj \<Rightarrow>
               if family obj = fam then Some (Some p)
               else family_scan h fam (nif_next obj)))"

definition net_device_add_iface :: "memory \<Rightarrow> ptr \<Rightarrow> ptr \<Rightarrow> (int \<times> memory) option" where
  "net_device_add_iface m d iface =
     (case dev m d of
        None \<Rightarrow> Some (- 1, m)
      | Some dv \<Rightarrow>
          (case ifc m iface of
             None \<Rightarrow> None
           | Some obj \<Rightarrow>
               (case family_scan (ifc m) (family obj) (dev_ifaces dv) of
                  None \<Rightarrow> None
                | Some (Some other) \<Rightarrow> Some (- 1, m)
                | Some None \<Rightarrow>
                    Some (0, m\<lparr>ifc := (ifc m)(iface \<mapsto> obj\<lparr>nif_next := dev_ifaces dv\<rparr>),
                                dev := (dev m)(d \<mapsto> dv\<lparr>dev_ifaces := Some iface\<rparr>)\<rparr>))))"

section \<open>PacketValidator and IngressDispatcher: \<open>ip_input\<close>\<close>

text \<open>
  Modelled from the spec: the constants \<open>IP_HDR_SIZE_MIN\<close> ("\<open>MinHeaderSize\<close> (20 bytes)")
  and \<open>IP_VERSION_IPV4\<close> ("must equal 4") of \<open>ip.h\<close>.
\<close>

definition IP_HDR_SIZE_MIN :: nat where
  "IP_HDR_SIZE_MIN = 20"

definition IP_VERSION_IPV4 :: "8 word" where
  "IP_VERSION_IPV4 = 4"

text \<open>
  Modelled from the spec: \<open>ntoh16\<close> of \<open>util.c\<close>, which is absent; it turns a 16-bit value
  in "network order" into the host's.
\<close>

definition ntoh16 :: "endian \<Rightarrow> 16 word \<Rightarrow> 16 word" where
  "ntoh16 e w =
     (case e of
        BigEndian \<Rightarrow> w
      | LittleEndian \<Rightarrow> word_cat (ucast w :: 8 word) (ucast (drop_bit 8 w) :: 8 word))"

text \<open>
  Modelled from the spec: \<open>cksum16\<close> of \<open>util.c\<close>, which is absent: the "16-bit checksum
  computed by summing 16-bit words with end-around carry and inverting". \<open>sum16\<close> adds
  the 16-bit words of a run of bytes as the host reads them (a last single byte as
  the word it forms with a zero byte after it), \<open>end_around_carry\<close> folds the carries
  back in. The run of bytes stands for the arguments \<open>addr\<close> and \<open>count\<close>; the type of
  \<open>count\<close> is declared in \<open>util.h\<close>, which is absent, and the run is taken whole.
\<close>

fun sum16 :: "endian \<Rightarrow> 8 word list \<Rightarrow> nat" where
  "sum16 e (b0 # b1 # bs) = unat (load16 e b0 b1) + sum16 e bs"
| "sum16 e [b0] = unat (load16 e b0 0)"
| "sum16 e [] = 0"

function end_around_carry :: "nat \<Rightarrow> nat" where
  "end_around_carry s =
     (if s div 65536 = 0 then s else end_around_carry (s mod 65536 + s div 65536))"
  by pat_completeness auto
termination
proof (relation "measure (\<lambda>s. s)")
  fix s :: nat
  assume "s div 65536 \<noteq> 0"
  then have "0 < s div 65536"
    by simp
  moreover have "s = 65536 * (s div 65536) + s mod 65536"
    by simp
  ultimately have "s mod 65536 + s div 65536 < s"
    by linarith
  then show "(s mod 65536 + s div 65536, s) \<in> measure (\<lambda>s. s)"
    by simp
qed simp

declare end_around_carry.simps [simp del]

definition cksum16 :: "endian \<Rightarrow> 8 word list \<Rightarrow> nat \<Rightarrow> 16 word" where
  "cksum16 e bytes init = NOT (word_of_nat (end_around_carry (init + sum16 e bytes)))"

text \<open>The fields of \<open>struct ip_hdr\<close> read through \<open>hdr = (struct ip_hdr * )data\<close>.\<close>

definition hdr_vhl :: "8 word list \<Rightarrow> 8 word" where
  "hdr_vhl data = data ! 0"

definition hdr_total :: "endian \<Rightarrow> 8 word list \<Rightarrow> 16 word" where
  "hdr_total e data = load16 e (data ! 2) (data ! 3)"

definition hdr_offset :: "endian \<Rightarrow> 8 word list \<Rightarrow> 16 word" where
  "hdr_offset e data = load16 e (data ! 6) (data ! 7)"

definition hdr_protocol :: "8 word list \<Rightarrow> 8 word" where
  "hdr_protocol data = data ! 9"

definition hdr_dst :: "endian \<Rightarrow> 8 word list \<Rightarrow> ip_addr_t" where
  "hdr_dst e data = load32 e (data ! 16) (data ! 17) (data ! 18) (data ! 19)"

text \<open>
  What a call of \<open>ip_input\<close> does before it returns: \<open>Rejected msg\<close> is \<open>errorf(msg)\<close>
  and \<open>return\<close>; \<open>Ignored\<close> is the \<open>return\<close> with no output; \<open>Delivered protocol total\<close>
  is the end of the function, with the \<open>debugf\<close> line and \<open>ip_dump(data, total)\<close>.
\<close>

datatype ip_result = Rejected string | Ignored | Delivered "8 word" "16 word"

text \<open>
  \<open>ip_input\<close>. The buffer is the list \<open>data\<close> and \<open>len\<close> is its length. Every field is
  read after the first check, so inside the buffer. \<open>hlen = sizeof( *data)\<close> is the size
  of one \<open>uint8_t\<close>, the type \<open>data\<close> points to: 1. \<open>net_device_get_iface\<close> belongs to
  \<open>net.c\<close> and is a parameter; it yields the interface bound to the device for a family,
  or \<open>None\<close> for \<open>NULL\<close>.
\<close>

definition ip_input ::
  "endian \<Rightarrow> ('dev \<Rightarrow> int \<Rightarrow> ip_iface option) \<Rightarrow> 8 word list \<Rightarrow> 'dev \<Rightarrow> ip_result" where
  "ip_input e net_device_get_iface data d =
     (let len = length data in
      if len < IP_HDR_SIZE_MIN then Rejected ''header size is too short''
      else
        let v = drop_bit 4 (hdr_vhl data AND 0xf0) in
        if v \<noteq> IP_VERSION_IPV4 then Rejected ''version must be 4''
        else
          let hlen = (1 :: 16 word) in
          if len < unat hlen then Rejected ''header data is too short''
          else
            let total = ntoh16 e (hdr_total e data) in
            if len < unat total then Rejected ''header total is too short''
            else
              let sum = cksum16 e (take len data) 0 in
              if sum \<noteq> 0 then Rejected ''checksum validation failed''
              else
                let offset = ntoh16 e (hdr_offset e data) in
                if offset AND 0x2000 \<noteq> 0 \<or> offset AND 0x1fff \<noteq> 0
                then Rejected ''flagments does not support''
                else
                  (case net_device_get_iface d NET_IFACE_FAMILY_IP of
                     None \<Rightarrow> Rejected ''coudln't get iface''
                   | Some iface \<Rightarrow>
                       if hdr_dst e data \<noteq> unicast iface \<and> hdr_dst e data \<noteq> IP_ADDR_BROADCAST
                          \<and> hdr_dst e data \<noteq> broadcast iface
                       then Ignored
                       else Delivered (hdr_protocol data) total))"

section \<open>Concrete inputs\<close>

text \<open>
  An interface 192.168.1.10/24 as \<open>ip_iface_alloc\<close> fills it in, a device bound to it,
  a device with no interface, and 20-byte headers from 192.168.1.1 with protocol 1 and a correct checksum field:
  \<open>pkt_ok\<close> to 192.168.1.10; \<open>pkt_ihl15\<close> the same with header length field 15;
  \<open>pkt_padded\<close> is \<open>pkt_ok\<close> followed by two bytes of padding; \<open>pkt_other\<close> to 10.0.0.1;
  \<open>pkt_frag\<close> with fragment offset 1; \<open>pkt_long_total\<close> declaring a total length of 24.
\<close>

definition test_iface :: "endian \<Rightarrow> ip_iface" where
  "test_iface e =
     \<lparr>nif_next = None, family = NET_IFACE_FAMILY_IP, iface_next = None,
      unicast = load32 e 192 168 1 10, netmask = load32 e 255 255 255 0,
      broadcast = load32 e 192 168 1 255\<rparr>"

definition bound_iface :: "endian \<Rightarrow> unit \<Rightarrow> int \<Rightarrow> ip_iface option" where
  "bound_iface e d fam = Some (test_iface e)"

definition no_iface :: "unit \<Rightarrow> int \<Rightarrow> ip_iface option" where
  "no_iface d fam = None"

definition pkt_ok :: "8 word list" where
  "pkt_ok = [0x45, 0x00, 0x00, 0x14, 0x00, 0x00, 0x00, 0x00, 0x40, 0x01,
             0xf7, 0x8d, 0xc0, 0xa8, 0x01, 0x01, 0xc0, 0xa8, 0x01, 0x0a]"

definition pkt_ihl15 :: "8 word list" where
  "pkt_ihl15 = [0x4f, 0x00, 0x00, 0x14, 0x00, 0x00, 0x00, 0x00, 0x40, 0x01,
                0xed, 0x8d, 0xc0, 0xa8, 0x01, 0x01, 0xc0, 0xa8, 0x01, 0x0a]"

definition pkt_padded :: "8 word list" where
  "pkt_padded = pkt_ok @ [0x00, 0x01]"

definition pkt_other :: "8 word list" where
  "pkt_other = [0x45, 0x00, 0x00, 0x14, 0x00, 0x00, 0x00, 0x00, 0x40, 0x01,
                0xaf, 0x3f, 0xc0, 0xa8, 0x01, 0x01, 0x0a, 0x00, 0x00, 0x01]"

definition pkt_frag :: "8 word list" where
  "pkt_frag = [0x45, 0x00, 0x00, 0x14, 0x00, 0x00, 0x00, 0x01, 0x40, 0x01,
               0xf7, 0x8c, 0xc0, 0xa8, 0x01, 0x01, 0xc0, 0xa8, 0x01, 0x0a]"

definition pkt_long_total :: "8 word list" where
  "pkt_long_total = [0x45, 0x00, 0x00, 0x18, 0x00, 0x00, 0x00, 0x00, 0x40, 0x01,
                     0xf7, 0x89, 0xc0, 0xa8, 0x01, 0x01, 0xc0, 0xa8, 0x01, 0x0a]"

text \<open>
  A state before any registration: the list head \<open>ifaces\<close> is \<open>NULL\<close>, as a static
  variable starts; one interface object at address 16 and one device at 32 with no
  interface yet. \<open>fresh_obj\<close> is a zeroed object as an allocator may hand it out.
\<close>

definition mem0 :: "endian \<Rightarrow> memory" where
  "mem0 e =
     \<lparr>ifc = [16 \<mapsto> test_iface e],
      dev = [32 \<mapsto> \<lparr>dev_name = ''net0'', dev_ifaces = None\<rparr>]\<rparr>"

definition st0 :: "endian \<Rightarrow> ip_state" where
  "st0 e = \<lparr>ifaces = None, mem = mem0 e\<rparr>"

definition fresh_obj :: ip_iface where
  "fresh_obj =
     \<lparr>nif_next = None, family = 0, iface_next = None, unicast = 0, netmask = 0,
      broadcast = 0\<rparr>"

text \<open>
  A setup phase: calls of \<open>ip_iface_register\<close> for the pairs of a device and an
  interface in turn, each of which succeeds; \<open>None\<close> when one of them does not.
\<close>

fun setup_ifaces ::
  "(memory \<Rightarrow> ptr \<Rightarrow> ptr \<Rightarrow> (int \<times> memory) option) \<Rightarrow> (ptr \<times> ptr) list \<Rightarrow> ip_state \<Rightarrow>
   ip_state option" where
  "setup_ifaces add [] st = Some st"
| "setup_ifaces add ((d, iface) # rest) st =
     (case ip_iface_register add d iface st of
        None \<Rightarrow> None
      | Some (rc, st') \<Rightarrow> if rc = 0 then setup_ifaces add rest st' else None)"

section \<open>Notions of the statements and proofs\<close>

text \<open>Two sums that differ by one power of two below \<open>2 ^ 16\<close>.\<close>

definition differ_by_power :: "nat \<Rightarrow> nat \<Rightarrow> bool" where
  "differ_by_power x y \<longleftrightarrow> (\<exists>j<16. x = y + 2 ^ j \<or> x + 2 ^ j = y)"

text \<open>The value of a run of decimal digits.\<close>

definition decimal :: "string \<Rightarrow> int" where
  "decimal ds = foldl (\<lambda>a c. a * 10 + digit_val c) 0 ds"

text \<open>
  The texts of four octets in the sense of \<open>strtol\<close>: an octet is white space, then
  at most one sign, then one digit or more, with a value from 0 to 255; a dotted quad is
  four of them with a dot between each two.
\<close>

definition octet_text :: "string \<Rightarrow> bool" where
  "octet_text seg \<longleftrightarrow>
     (\<exists>ws sg ds. seg = ws @ sg @ ds \<and> (\<forall>c\<in>set ws. isspace c) \<and>
        sg \<in> {[], ''+'', ''-''} \<and> ds \<noteq> [] \<and> (\<forall>c\<in>set ds. isdigit c) \<and>
        0 \<le> (if sg = ''-'' then - decimal ds else decimal ds) \<and>
        (if sg = ''-'' then - decimal ds else decimal ds) \<le> 255)"



section \<open>Octets of a 32-bit object\<close>

lemma ff_mask: "(0xff :: 32 word) = mask 8"
  by (simp add: mask_eq_exp_minus_1)

lemma load_store_u8:
  "i < 4 \<Longrightarrow> j < 4 \<Longrightarrow>
     load_u8 e (store_u8 e n i b) j = (if i = j then b else load_u8 e n j)"
  apply (rule bit_eqI)
  apply (cases e)
   apply (auto simp: load_u8_def store_u8_def octet_shift_def bit_simps ff_mask
      dest: bit_imp_le_length)
  done

lemma word32_octets_eq:
  assumes "\<And>i. i < 4 \<Longrightarrow> load_u8 e n i = load_u8 e m i"
  shows "n = m"
proof (rule bit_eqI)
  fix k
  assume "possible_bit TYPE(32 word) k"
  then have k: "k < 32"
    by (simp add: possible_bit_word)
  show "bit n k = bit m k"
  proof (cases e)
    case LittleEndian
    have "bit (load_u8 e n (k div 8)) (k mod 8) = bit (load_u8 e m (k div 8)) (k mod 8)"
      using assms[of "k div 8"] k by simp
    then show ?thesis
      using k LittleEndian by (simp add: load_u8_def octet_shift_def bit_simps)
  next
    case BigEndian
    have "bit (load_u8 e n (3 - k div 8)) (k mod 8) = bit (load_u8 e m (3 - k div 8)) (k mod 8)"
      using assms[of "3 - k div 8"] k by simp
    moreover have "8 * (3 - (3 - k div 8)) + k mod 8 = k"
      using k by simp
    ultimately show ?thesis
      using k BigEndian by (simp add: load_u8_def octet_shift_def bit_simps)
  qed
qed

lemma unat_u8_less: "unat (b :: 8 word) < 256"
  using unsigned_less[of b, where ?'a = nat] by simp

lemma load_u8_load32:
  "i < 4 \<Longrightarrow> load_u8 e (load32 e b0 b1 b2 b3) i = [b0, b1, b2, b3] ! i"
proof -
  assume "i < 4"
  then consider "i = 0" | "i = 1" | "i = 2" | "i = 3"
    by linarith
  then show ?thesis
    by cases (simp_all add: load32_def load_store_u8)
qed

lemma load32_broadcast: "load32 e 255 255 255 255 = IP_ADDR_BROADCAST"
  by (cases e) (simp_all add: load32_def store_u8_def octet_shift_def IP_ADDR_BROADCAST_def)

lemma unat_word_cat_8_8:
  fixes a b :: "8 word"
  shows "unat (word_cat a b :: 16 word) = 256 * unat a + unat b"
proof -
  have a: "unat a < 256" and b: "unat b < 256"
    by (rule unat_u8_less)+
  have "unat (word_cat a b :: 16 word) = (256 * unat a + unat b) mod 65536"
    by (simp add: word_cat_eq unat_word_ariths unsigned_push_bit_eq unsigned_ucast_eq
        take_bit_eq_mod push_bit_eq_mult mod_simps mult.commute)
  with a b show ?thesis
    by simp
qed

lemma unat_load16:
  "unat (load16 e b0 b1) =
     (case e of BigEndian \<Rightarrow> 256 * unat b0 + unat b1
              | LittleEndian \<Rightarrow> 256 * unat b1 + unat b0)"
  by (cases e) (simp_all add: load16_def unat_word_cat_8_8)

text \<open>A 16-bit field decoded with \<open>ntoh16\<close> is big-endian whatever the host is.\<close>

lemma ntoh16_load16: "ntoh16 e (load16 e b0 b1) = word_cat b0 b1"
proof (cases e)
  case BigEndian
  then show ?thesis
    by (simp add: ntoh16_def load16_def)
next
  case LittleEndian
  have "word_cat (ucast (word_cat b1 b0 :: 16 word) :: 8 word)
          (ucast (drop_bit 8 (word_cat b1 b0 :: 16 word)) :: 8 word) = (word_cat b0 b1 :: 16 word)"
    by (rule bit_eqI) (auto simp: bit_simps dest: bit_imp_le_length)
  with LittleEndian show ?thesis
    by (simp add: ntoh16_def load16_def)
qed

section \<open>The checksum\<close>

lemma end_around_carry_props:
  "end_around_carry s < 65536 \<and> end_around_carry s mod 65535 = s mod 65535 \<and>
   (end_around_carry s = 0 \<longleftrightarrow> s = 0)"
proof (induction s rule: end_around_carry.induct)
  case (1 s)
  show ?case
  proof (cases "s div 65536 = 0")
    case True
    then show ?thesis
      by (simp add: end_around_carry.simps[of s] div_eq_0_iff)
  next
    case False
    let ?t = "s mod 65536 + s div 65536"
    have eq: "end_around_carry s = end_around_carry ?t"
      using False by (subst end_around_carry.simps) simp
    have "s = ?t + s div 65536 * 65535"
      by simp
    then have "s mod 65535 = (?t + s div 65536 * 65535) mod 65535"
      by simp
    then have "?t mod 65535 = s mod 65535"
      by (simp only: mod_mult_self1)
    moreover have "?t \<noteq> 0" "s \<noteq> 0"
      using False by auto
    ultimately show ?thesis
      using 1[OF False] eq by simp
  qed
qed

text \<open>
  The checksum of a run of bytes is zero exactly when the sum of its words is a multiple
  of \<open>0xffff\<close> other than 0.
\<close>

lemma cksum16_zero_iff:
  "cksum16 e bs init = 0 \<longleftrightarrow> (init + sum16 e bs) mod 65535 = 0 \<and> init + sum16 e bs \<noteq> 0"
proof -
  let ?s = "init + sum16 e bs"
  let ?c = "end_around_carry ?s"
  have c: "?c < 65536" "?c mod 65535 = ?s mod 65535" "?c = 0 \<longleftrightarrow> ?s = 0"
    using end_around_carry_props[of ?s] by auto
  have "cksum16 e bs init = 0 \<longleftrightarrow> (word_of_nat ?c :: 16 word) = - 1"
    unfolding cksum16_def
    using bit.compl_eq_compl_iff[of "word_of_nat ?c :: 16 word" "- 1"] by simp
  also have "\<dots> \<longleftrightarrow> unat (word_of_nat ?c :: 16 word) = unat (- 1 :: 16 word)"
    by (simp add: word_unat_eq_iff)
  also have "\<dots> \<longleftrightarrow> ?c = 65535"
    using c(1) by (simp add: unat_of_nat unsigned_minus_1_eq_mask mask_eq_exp_minus_1)
  also have "\<dots> \<longleftrightarrow> ?s mod 65535 = 0 \<and> ?s \<noteq> 0"
  proof
    assume "?c = 65535"
    then show "?s mod 65535 = 0 \<and> ?s \<noteq> 0"
      using c(2,3) by auto
  next
    assume "?s mod 65535 = 0 \<and> ?s \<noteq> 0"
    then have "?c mod 65535 = 0" and nz: "?c \<noteq> 0"
      using c(2,3) by auto
    then obtain m where m: "?c = 65535 * m"
      by (auto simp: mod_eq_0_iff_dvd)
    with nz c(1) have "m = 1"
      by (cases m rule: nat.exhaust) auto
    with m show "?c = 65535"
      by simp
  qed
  finally show ?thesis .
qed

subsection \<open>One flipped bit\<close>

lemma unat_flip_bit_clear:
  fixes b :: "8 word"
  assumes "k < 8" "\<not> bit b k"
  shows "unat (flip_bit k b) = unat b + 2 ^ k"
proof -
  have "unat (flip_bit k b) = flip_bit k (unat b)"
    using assms by (intro bit_eqI) (auto simp: bit_simps dest: bit_imp_le_length)
  also have "\<dots> = set_bit k (unat b)"
    using assms by (simp add: flip_bit_eq_if bit_unsigned_iff)
  also have "\<dots> = unat b + 2 ^ k"
    using assms by (simp add: set_bit_eq bit_unsigned_iff)
  finally show ?thesis .
qed

lemma unat_flip_bit_set:
  fixes b :: "8 word"
  assumes "k < 8" "bit b k"
  shows "unat (flip_bit k b) + 2 ^ k = unat b"
proof -
  have "\<not> bit (flip_bit k b) k"
    using assms by (simp add: bit_simps)
  then have "unat (flip_bit k (flip_bit k b)) = unat (flip_bit k b) + 2 ^ k"
    using assms by (intro unat_flip_bit_clear)
  moreover have "flip_bit k (flip_bit k b) = b"
    by (rule bit_eqI) (auto simp: bit_simps)
  ultimately show ?thesis
    by simp
qed

lemma byte_flip_cases:
  fixes b :: "8 word"
  assumes "k < 8"
  shows "unat (flip_bit k b) = unat b + 2 ^ k \<or> unat (flip_bit k b) + 2 ^ k = unat b"
  using assms unat_flip_bit_clear[of k b] unat_flip_bit_set[of k b] by blast

lemma differ_by_powerI1: "j < 16 \<Longrightarrow> x = y + 2 ^ j \<Longrightarrow> differ_by_power x y"
  and differ_by_powerI2: "j < 16 \<Longrightarrow> x + 2 ^ j = y \<Longrightarrow> differ_by_power x y"
  by (auto simp: differ_by_power_def)

lemma differ_by_power_add: "differ_by_power x y \<Longrightarrow> differ_by_power (z + x) (z + y)"
  and differ_by_power_add2: "differ_by_power x y \<Longrightarrow> differ_by_power (x + z) (y + z)"
  unfolding differ_by_power_def by auto

lemma load16_flip_first:
  assumes "k < 8"
  shows "differ_by_power (unat (load16 e (flip_bit k b0) b1)) (unat (load16 e b0 b1))"
proof (cases e)
  case LittleEndian
  from byte_flip_cases[OF assms, of b0] show ?thesis
  proof
    assume "unat (flip_bit k b0) = unat b0 + 2 ^ k"
    then show ?thesis
      using assms LittleEndian
      by (intro differ_by_powerI1[of k]) (simp_all add: unat_load16)
  next
    assume "unat (flip_bit k b0) + 2 ^ k = unat b0"
    then show ?thesis
      using assms LittleEndian
      by (intro differ_by_powerI2[of k]) (simp_all add: unat_load16)
  qed
next
  case BigEndian
  have p: "(256::nat) * 2 ^ k = 2 ^ (k + 8)"
    by (simp add: power_add)
  from byte_flip_cases[OF assms, of b0] show ?thesis
  proof
    assume "unat (flip_bit k b0) = unat b0 + 2 ^ k"
    then show ?thesis
      using assms BigEndian p
      by (intro differ_by_powerI1[of "k + 8"]) (simp_all add: unat_load16 algebra_simps)
  next
    assume "unat (flip_bit k b0) + 2 ^ k = unat b0"
    then have "256 * (unat (flip_bit k b0) + 2 ^ k) = 256 * unat b0"
      by simp
    then have "256 * unat (flip_bit k b0) + 2 ^ (k + 8) = 256 * unat b0"
      by (simp only: distrib_left p)
    then show ?thesis
      using assms BigEndian
      by (intro differ_by_powerI2[of "k + 8"]) (simp_all add: unat_load16)
  qed
qed

lemma load16_swap:
  "load16 e b0 b1 =
     load16 (case e of BigEndian \<Rightarrow> LittleEndian | LittleEndian \<Rightarrow> BigEndian) b1 b0"
  by (cases e) (simp_all add: load16_def)

lemma load16_flip_second:
  assumes "k < 8"
  shows "differ_by_power (unat (load16 e b0 (flip_bit k b1))) (unat (load16 e b0 b1))"
  using load16_flip_first[OF assms,
      of "case e of BigEndian \<Rightarrow> LittleEndian | LittleEndian \<Rightarrow> BigEndian" b1 b0]
  by (simp add: load16_swap[of e])

lemma sum16_flip:
  "i < length bs \<Longrightarrow> k < 8 \<Longrightarrow>
     differ_by_power (sum16 e (bs[i := flip_bit k (bs ! i)])) (sum16 e bs)"
proof (induction e bs arbitrary: i rule: sum16.induct)
  case (1 e b0 b1 bs)
  consider "i = 0" | "i = 1" | i' where "i = Suc (Suc i')"
    by (cases i rule: nat.exhaust; cases "i - 1" rule: nat.exhaust) auto
  then show ?case
  proof cases
    case 1
    then show ?thesis
      using load16_flip_first[OF \<open>k < 8\<close>, of e b0 b1] by (simp add: differ_by_power_add2)
  next
    case 2
    then show ?thesis
      using load16_flip_second[OF \<open>k < 8\<close>, of e b0 b1] by (simp add: differ_by_power_add2)
  next
    case 3
    then show ?thesis
      using 1 by (simp add: differ_by_power_add)
  qed
next
  case (2 e b0)
  then show ?case
    using load16_flip_first[of k e b0 0] by simp
next
  case (3 e)
  then show ?case
    by simp
qed

lemma power_not_dvd: "j < 16 \<Longrightarrow> \<not> (65535::nat) dvd 2 ^ j"
proof
  assume j: "j < 16" and d: "(65535::nat) dvd 2 ^ j"
  have "(2::nat) ^ j \<le> 2 ^ 15"
    using j by (intro power_increasing) auto
  then have "(2::nat) ^ j < 65535"
    by simp
  moreover have "(0::nat) < 2 ^ j"
    by simp
  ultimately show False
    using d dvd_imp_le[of 65535 "2 ^ j"] by simp
qed

lemma differ_by_power_mod:
  assumes "differ_by_power x y" "y mod 65535 = 0"
  shows "x mod 65535 \<noteq> 0"
proof
  assume x: "x mod 65535 = 0"
  from assms(1) obtain j where j: "j < 16" and c: "x = y + 2 ^ j \<or> x + 2 ^ j = y"
    by (auto simp: differ_by_power_def)
  have dx: "65535 dvd x" and dy: "65535 dvd y"
    using x assms(2) by (simp_all add: mod_eq_0_iff_dvd)
  from c have "(65535::nat) dvd 2 ^ j"
  proof
    assume "x = y + 2 ^ j"
    with dx dy show ?thesis
      by (simp add: dvd_add_right_iff)
  next
    assume "x + 2 ^ j = y"
    with dx dy show ?thesis
      using dvd_add_right_iff[of 65535 x "2 ^ j"] by simp
  qed
  with power_not_dvd[OF j] show False
    by simp
qed

text \<open>A run of bytes with checksum zero no longer has it after one bit is flipped.\<close>

lemma cksum16_flip:
  assumes "cksum16 e bs 0 = 0" "i < length bs" "k < 8"
  shows "cksum16 e (bs[i := flip_bit k (bs ! i)]) 0 \<noteq> 0"
  using differ_by_power_mod[OF sum16_flip[OF assms(2,3), of e]] assms(1)
  by (simp add: cksum16_zero_iff)

section \<open>The ingress handler\<close>

text \<open>\<open>ip_input\<close> as the chain of its checks, with the check against \<open>hlen\<close> resolved.\<close>

lemma ip_input_cases:
  "ip_input e g data d =
     (if length data < 20 then Rejected ''header size is too short''
      else if drop_bit 4 (hdr_vhl data AND 0xf0) \<noteq> 4 then Rejected ''version must be 4''
      else if length data < unat (ntoh16 e (hdr_total e data))
        then Rejected ''header total is too short''
      else if cksum16 e data 0 \<noteq> 0 then Rejected ''checksum validation failed''
      else if ntoh16 e (hdr_offset e data) AND 0x2000 \<noteq> 0
              \<or> ntoh16 e (hdr_offset e data) AND 0x1fff \<noteq> 0
        then Rejected ''flagments does not support''
      else (case g d NET_IFACE_FAMILY_IP of
              None \<Rightarrow> Rejected ''coudln't get iface''
            | Some iface \<Rightarrow>
                if hdr_dst e data \<noteq> unicast iface \<and> hdr_dst e data \<noteq> IP_ADDR_BROADCAST
                   \<and> hdr_dst e data \<noteq> broadcast iface
                then Ignored
                else Delivered (hdr_protocol data) (ntoh16 e (hdr_total e data))))"
  by (simp add: ip_input_def Let_def IP_HDR_SIZE_MIN_def IP_VERSION_IPV4_def)

lemma hdr_total_network_order: "ntoh16 e (hdr_total e data) = word_cat (data ! 2) (data ! 3)"
  and hdr_offset_network_order: "ntoh16 e (hdr_offset e data) = word_cat (data ! 6) (data ! 7)"
  by (simp_all add: hdr_total_def hdr_offset_def ntoh16_load16)

text \<open>The definitions that evaluate \<open>ip_input\<close> on a concrete buffer.\<close>

lemmas ip_input_eval =
  ip_input_def Let_def IP_HDR_SIZE_MIN_def IP_VERSION_IPV4_def hdr_vhl_def hdr_total_def
  hdr_offset_def hdr_protocol_def hdr_dst_def load16_def load32_def store_u8_def
  octet_shift_def ntoh16_def word_cat_eq cksum16_def end_around_carry.simps
  IP_ADDR_BROADCAST_def NET_IFACE_FAMILY_IP_def test_iface_def bound_iface_def

lemma pkt_ok_delivered: "ip_input e (bound_iface e) pkt_ok () = Delivered 1 20"
  by (cases e) (simp_all add: pkt_ok_def ip_input_eval)

lemma pkt_other_ignored: "ip_input e (bound_iface e) pkt_other () = Ignored"
  by (cases e) (simp_all add: pkt_other_def ip_input_eval)

lemma pkt_frag_rejected:
  "ip_input e (bound_iface e) pkt_frag () = Rejected ''flagments does not support''"
  by (cases e) (simp_all add: pkt_frag_def ip_input_eval)

lemma pkt_long_total_rejected:
  "ip_input e (bound_iface e) pkt_long_total () = Rejected ''header total is too short''"
  by (cases e) (simp_all add: pkt_long_total_def ip_input_eval)

lemma pkt_padded_rejected:
  "ip_input e (bound_iface e) pkt_padded () = Rejected ''checksum validation failed''"
  by (cases e) (simp_all add: pkt_padded_def pkt_ok_def ip_input_eval)

subsection \<open>Header length\<close>

text \<open>
  The check against \<open>hlen\<close> compares \<open>len\<close>, already at least 20, with
  \<open>sizeof( *data)\<close>, which is 1: no buffer is ever rejected by it.
\<close>

lemma ip_input_header_data_check_dead:
  "ip_input e g data d \<noteq> Rejected ''header data is too short''"
  by (simp add: ip_input_cases split: option.split)

text \<open>
  C1: the claim is that a packet past the size and version checks is rejected exactly
  when four times the low nibble of its first byte exceeds the received length. The
  code does not decode that nibble in \<open>ip_input\<close>. The buffer \<open>pkt_ihl15\<close> has 20 bytes
  and a header length field of 15, so an effective header size of 60 bytes; it passes
  every check and is delivered, on a host of either byte order.
\<close>

theorem ip_input_header_length_not_checked:
  "length pkt_ihl15 = 20 \<and> 4 * unat (hdr_vhl pkt_ihl15 AND 0x0f) = 60 \<and>
   ip_input LittleEndian (bound_iface LittleEndian) pkt_ihl15 () = Delivered 1 20 \<and>
   ip_input BigEndian (bound_iface BigEndian) pkt_ihl15 () = Delivered 1 20"
  by (simp add: pkt_ihl15_def ip_input_eval)

theorem ip_input_header_length_not_checked_witness:
  "ip_input LittleEndian (bound_iface LittleEndian) pkt_ihl15 () \<noteq>
     Rejected ''header data is too short''"
  using ip_input_header_length_not_checked by simp

subsection \<open>Length checks\<close>

text \<open>
  C5: a buffer shorter than 20 bytes is rejected whatever it holds, so before any field
  is decoded; a buffer of at least 20 bytes whose decoded total length exceeds its
  length is rejected (as the wrong version, or else for its total length); and a buffer
  longer than its declared total length is rejected by none of the three length checks.
\<close>

theorem ip_input_length_checks:
  "(length data < 20 \<longrightarrow> ip_input e g data d = Rejected ''header size is too short'') \<and>
   (20 \<le> length data \<and> length data < unat (ntoh16 e (hdr_total e data)) \<longrightarrow>
      ip_input e g data d = Rejected ''version must be 4'' \<or>
      ip_input e g data d = Rejected ''header total is too short'') \<and>
   (20 \<le> length data \<and> unat (ntoh16 e (hdr_total e data)) < length data \<longrightarrow>
      ip_input e g data d \<noteq> Rejected ''header size is too short'' \<and>
      ip_input e g data d \<noteq> Rejected ''header data is too short'' \<and>
      ip_input e g data d \<noteq> Rejected ''header total is too short'')"
  by (simp add: ip_input_cases split: option.split)

theorem ip_input_length_checks_witness:
  "length (take 19 pkt_ok) < 20 \<and>
   ip_input LittleEndian (bound_iface LittleEndian) (take 19 pkt_ok) () =
     Rejected ''header size is too short'' \<and>
   20 \<le> length pkt_long_total \<and>
   length pkt_long_total < unat (ntoh16 LittleEndian (hdr_total LittleEndian pkt_long_total)) \<and>
   ip_input LittleEndian (bound_iface LittleEndian) pkt_long_total () =
     Rejected ''header total is too short'' \<and>
   20 \<le> length pkt_padded \<and>
   unat (ntoh16 LittleEndian (hdr_total LittleEndian pkt_padded)) < length pkt_padded \<and>
   ip_input LittleEndian (bound_iface LittleEndian) pkt_padded () \<noteq>
     Rejected ''header total is too short''"
proof -
  have short: "length (take 19 pkt_ok) < 20"
    by (simp add: pkt_ok_def)
  have long: "20 \<le> length pkt_long_total \<and>
      length pkt_long_total < unat (ntoh16 LittleEndian (hdr_total LittleEndian pkt_long_total))"
    by (simp add: pkt_long_total_def hdr_total_network_order word_cat_eq)
  have padded: "20 \<le> length pkt_padded \<and>
      unat (ntoh16 LittleEndian (hdr_total LittleEndian pkt_padded)) < length pkt_padded"
    by (simp add: pkt_padded_def pkt_ok_def hdr_total_network_order word_cat_eq)
  have version: "ip_input LittleEndian (bound_iface LittleEndian) pkt_long_total () \<noteq>
      Rejected ''version must be 4''"
    by (simp add: pkt_long_total_rejected)
  show ?thesis
    using short long padded version
      ip_input_length_checks[of "take 19 pkt_ok" LittleEndian "bound_iface LittleEndian" "()"]
      ip_input_length_checks[of pkt_long_total LittleEndian "bound_iface LittleEndian" "()"]
      ip_input_length_checks[of pkt_padded LittleEndian "bound_iface LittleEndian" "()"]
    by blast
qed

subsection \<open>Fragments\<close>

text \<open>
  C6: a buffer of at least 20 bytes whose flags and fragment offset field has the
  more-fragments flag set or a 13-bit offset other than zero is never accepted: it is
  rejected by one of the checks up to the fragment check, whatever its checksum; and
  when it reaches the fragment check (none of the earlier checks rejects it), it is
  rejected there.
\<close>

theorem ip_input_fragment_rejected:
  assumes "20 \<le> length data"
    and "ntoh16 e (hdr_offset e data) AND 0x2000 \<noteq> 0
         \<or> ntoh16 e (hdr_offset e data) AND 0x1fff \<noteq> 0"
  shows "ip_input e g data d \<in> Rejected ` {''version must be 4'', ''header total is too short'',
            ''checksum validation failed'', ''flagments does not support''} \<and>
         (ip_input e g data d \<notin> Rejected ` {''version must be 4'',
            ''header total is too short'', ''checksum validation failed''} \<longrightarrow>
          ip_input e g data d = Rejected ''flagments does not support'')"
proof -
  have "ip_input e g data d = Rejected ''version must be 4'' \<or>
        ip_input e g data d = Rejected ''header total is too short'' \<or>
        ip_input e g data d = Rejected ''checksum validation failed'' \<or>
        ip_input e g data d = Rejected ''flagments does not support''"
    unfolding ip_input_cases using assms by simp
  then show ?thesis
    by auto
qed

theorem ip_input_fragment_rejected_witness:
  "20 \<le> length pkt_frag \<and>
   ntoh16 LittleEndian (hdr_offset LittleEndian pkt_frag) AND 0x1fff \<noteq> 0 \<and>
   ip_input LittleEndian (bound_iface LittleEndian) pkt_frag () =
     Rejected ''flagments does not support''"
proof -
  have len: "20 \<le> length pkt_frag"
    by (simp add: pkt_frag_def)
  have off: "ntoh16 LittleEndian (hdr_offset LittleEndian pkt_frag) AND 0x1fff \<noteq> 0"
    by (simp add: pkt_frag_def hdr_offset_network_order word_cat_eq)
  have early: "ip_input LittleEndian (bound_iface LittleEndian) pkt_frag () \<notin>
      Rejected ` {''version must be 4'', ''header total is too short'',
                  ''checksum validation failed''}"
    by (simp add: pkt_frag_rejected)
  from ip_input_fragment_rejected[OF len disjI2[OF off], of "bound_iface LittleEndian" "()"]
    early len off
  show ?thesis
    by blast
qed

subsection \<open>Address matching\<close>

text \<open>The concrete headers pass every validation check, on a host of either byte order.\<close>

lemma pkt_ok_valid:
  "20 \<le> length pkt_ok"
  "drop_bit 4 (hdr_vhl pkt_ok AND 0xf0) = 4"
  "unat (ntoh16 e (hdr_total e pkt_ok)) \<le> length pkt_ok"
  "cksum16 e pkt_ok 0 = 0"
  "ntoh16 e (hdr_offset e pkt_ok) AND 0x2000 = 0"
  "ntoh16 e (hdr_offset e pkt_ok) AND 0x1fff = 0"
  by (cases e; simp add: pkt_ok_def ip_input_eval)+

lemma pkt_other_valid:
  "20 \<le> length pkt_other"
  "drop_bit 4 (hdr_vhl pkt_other AND 0xf0) = 4"
  "unat (ntoh16 e (hdr_total e pkt_other)) \<le> length pkt_other"
  "cksum16 e pkt_other 0 = 0"
  "ntoh16 e (hdr_offset e pkt_other) AND 0x2000 = 0"
  "ntoh16 e (hdr_offset e pkt_other) AND 0x1fff = 0"
  by (cases e; simp add: pkt_other_def ip_input_eval)+

lemma pkt_dst:
  "hdr_dst e pkt_ok = unicast (test_iface e)"
  "hdr_dst e pkt_other \<noteq> unicast (test_iface e)"
  "hdr_dst e pkt_other \<noteq> broadcast (test_iface e)"
  "hdr_dst e pkt_other \<noteq> load32 e 255 255 255 255"
  by (cases e; simp add: pkt_ok_def pkt_other_def hdr_dst_def test_iface_def load32_def
      store_u8_def octet_shift_def)+

text \<open>
  C4: a packet passes all validation checks when it has at least 20 bytes, version 4, a
  total length that does not exceed the received length, a checksum of zero, and neither
  the more-fragments flag nor a fragment offset. For every such packet: on a device with
  a bound interface it is accepted exactly when its destination is the interface's
  unicast address, its broadcast address or 255.255.255.255, and when none of the three
  matches the handler returns with no output at all; on a device with no bound
  interface it is dropped with the diagnostic of that case.
\<close>

theorem ip_input_address_match:
  assumes "20 \<le> length data"
    and "drop_bit 4 (hdr_vhl data AND 0xf0) = 4"
    and "unat (ntoh16 e (hdr_total e data)) \<le> length data"
    and "cksum16 e data 0 = 0"
    and "ntoh16 e (hdr_offset e data) AND 0x2000 = 0"
    and "ntoh16 e (hdr_offset e data) AND 0x1fff = 0"
  shows "(\<forall>iface. g d NET_IFACE_FAMILY_IP = Some iface \<longrightarrow>
            (ip_input e g data d = Delivered (hdr_protocol data) (ntoh16 e (hdr_total e data))
               \<longleftrightarrow>
             hdr_dst e data = unicast iface \<or> hdr_dst e data = broadcast iface \<or>
             hdr_dst e data = load32 e 255 255 255 255) \<and>
            (hdr_dst e data \<noteq> unicast iface \<and> hdr_dst e data \<noteq> broadcast iface \<and>
             hdr_dst e data \<noteq> load32 e 255 255 255 255 \<longrightarrow>
               ip_input e g data d = Ignored)) \<and>
         (g d NET_IFACE_FAMILY_IP = None \<longrightarrow>
            ip_input e g data d = Rejected ''coudln't get iface'')"
  using assms unfolding ip_input_cases load32_broadcast
  by (simp split: option.splits)

theorem ip_input_address_match_witness:
  "20 \<le> length pkt_ok \<and>
   drop_bit 4 (hdr_vhl pkt_ok AND 0xf0) = 4 \<and>
   unat (ntoh16 LittleEndian (hdr_total LittleEndian pkt_ok)) \<le> length pkt_ok \<and>
   cksum16 LittleEndian pkt_ok 0 = 0 \<and>
   ntoh16 LittleEndian (hdr_offset LittleEndian pkt_ok) AND 0x2000 = 0 \<and>
   ntoh16 LittleEndian (hdr_offset LittleEndian pkt_ok) AND 0x1fff = 0 \<and>
   hdr_dst LittleEndian pkt_ok = unicast (test_iface LittleEndian) \<and>
   ip_input LittleEndian (bound_iface LittleEndian) pkt_ok () =
     Delivered (hdr_protocol pkt_ok) (ntoh16 LittleEndian (hdr_total LittleEndian pkt_ok)) \<and>
   ip_input LittleEndian no_iface pkt_ok () = Rejected ''coudln't get iface'' \<and>
   hdr_dst LittleEndian pkt_other \<noteq> unicast (test_iface LittleEndian) \<and>
   hdr_dst LittleEndian pkt_other \<noteq> broadcast (test_iface LittleEndian) \<and>
   hdr_dst LittleEndian pkt_other \<noteq> load32 LittleEndian 255 255 255 255 \<and>
   ip_input LittleEndian (bound_iface LittleEndian) pkt_other () = Ignored"
proof -
  have b: "bound_iface LittleEndian () NET_IFACE_FAMILY_IP = Some (test_iface LittleEndian)"
    by (simp add: bound_iface_def)
  have n: "no_iface () NET_IFACE_FAMILY_IP = None"
    by (simp add: no_iface_def)
  note ok = ip_input_address_match[where e = LittleEndian and data = pkt_ok, OF pkt_ok_valid]
  note other = ip_input_address_match[where e = LittleEndian and data = pkt_other, OF pkt_other_valid]
  from ok[of "bound_iface LittleEndian" "()"] b pkt_dst(1)[of LittleEndian]
  have 1: "ip_input LittleEndian (bound_iface LittleEndian) pkt_ok () =
      Delivered (hdr_protocol pkt_ok) (ntoh16 LittleEndian (hdr_total LittleEndian pkt_ok))"
    by blast
  from ok[of no_iface "()"] n
  have 2: "ip_input LittleEndian no_iface pkt_ok () = Rejected ''coudln't get iface''"
    by blast
  from other[of "bound_iface LittleEndian" "()"] b pkt_dst(2-4)[of LittleEndian]
  have 3: "ip_input LittleEndian (bound_iface LittleEndian) pkt_other () = Ignored"
    by blast
  from 1 2 3 pkt_ok_valid(1,2) pkt_ok_valid(3-6)[of LittleEndian] pkt_dst[of LittleEndian]
  show ?thesis
    by blast
qed

subsection \<open>Checksum\<close>

text \<open>
  The checksum step, for a buffer that reaches it: the sum runs over all \<open>len\<close> bytes
  received, and the buffer is rejected at this step exactly when that sum is not zero.
\<close>

lemma ip_input_checksum_step:
  assumes "20 \<le> length data"
    and "drop_bit 4 (hdr_vhl data AND 0xf0) = 4"
    and "unat (ntoh16 e (hdr_total e data)) \<le> length data"
  shows "ip_input e g data d = Rejected ''checksum validation failed''
           \<longleftrightarrow> cksum16 e data 0 \<noteq> 0"
  using assms unfolding ip_input_cases by (simp split: option.splits)

text \<open>One flipped bit anywhere in a buffer whose sum is zero gives a buffer that is rejected.\<close>

lemma ip_input_flipped_bit_rejected:
  assumes "cksum16 e data 0 = 0" "i < length data" "k < 8"
  shows "\<exists>msg. ip_input e g (data[i := flip_bit k (data ! i)]) d = Rejected msg"
proof -
  have "cksum16 e (data[i := flip_bit k (data ! i)]) 0 \<noteq> 0"
    using assms by (rule cksum16_flip)
  then show ?thesis
    unfolding ip_input_cases by simp
qed

text \<open>
  C2: the claim is that the checksum is computed with the declared total length as the
  extent, so that the bytes a link layer pads a datagram with do not enter it. The code
  passes \<open>len\<close>, the received length. \<open>pkt_padded\<close> has version 4, declares a total
  length of 20, and its first 20 bytes, the whole datagram, have checksum zero; it is
  followed by two bytes of padding, 00 01. The handler rejects it for its checksum, on a
  host of either byte order.
\<close>

theorem ip_input_checksum_covers_padding:
  "length pkt_padded = 22 \<and>
   drop_bit 4 (hdr_vhl pkt_padded AND 0xf0) = 4 \<and>
   unat (ntoh16 LittleEndian (hdr_total LittleEndian pkt_padded)) = 20 \<and>
   cksum16 LittleEndian
     (take (unat (ntoh16 LittleEndian (hdr_total LittleEndian pkt_padded))) pkt_padded) 0 = 0 \<and>
   ip_input LittleEndian (bound_iface LittleEndian) pkt_padded () =
     Rejected ''checksum validation failed'' \<and>
   unat (ntoh16 BigEndian (hdr_total BigEndian pkt_padded)) = 20 \<and>
   cksum16 BigEndian
     (take (unat (ntoh16 BigEndian (hdr_total BigEndian pkt_padded))) pkt_padded) 0 = 0 \<and>
   ip_input BigEndian (bound_iface BigEndian) pkt_padded () =
     Rejected ''checksum validation failed''"
  by (simp add: pkt_padded_def pkt_ok_def ip_input_eval)

theorem ip_input_checksum_covers_padding_witness:
  "ip_input LittleEndian (bound_iface LittleEndian) pkt_padded () \<noteq> Delivered 1 20"
  using ip_input_checksum_covers_padding by simp

section \<open>The address codec\<close>

subsection \<open>Decimal digits\<close>

lemma isdigit_char_of: "n < 10 \<Longrightarrow> isdigit (char_of (48 + n :: nat))"
  by (simp add: isdigit_def)

lemma digit_val_char_of: "n < 10 \<Longrightarrow> digit_val (char_of (48 + n :: nat)) = int n"
  by (simp add: digit_val_def)

lemma not_isdigit_NUL_dot [simp]: "\<not> isdigit NUL" "\<not> isdigit CHR ''.''"
  by (simp_all add: isdigit_def NUL_def)

lemma dec_digits: "c \<in> set (dec n) \<Longrightarrow> isdigit c"
proof (induction n arbitrary: c rule: dec.induct)
  case (1 n)
  then show ?case
    by (subst (asm) (2) dec.simps) (auto simp: isdigit_char_of split: if_splits)
qed

lemma dec_nonempty: "dec n \<noteq> []"
  by (subst dec.simps) simp

lemma dec_length: "n < 1000 \<Longrightarrow> length (dec n) \<le> 3"
  by (simp add: dec.simps[of n] dec.simps[of "n div 10"] dec.simps[of "n div 10 div 10"])

lemma strtol_digits_stop: "\<not> isdigit (deref s) \<Longrightarrow> strtol_digits acc s = (acc, s)"
  by (cases s) (simp_all add: deref_def)

lemma strtol_digits_append:
  "\<forall>c\<in>set ds. isdigit c \<Longrightarrow>
     strtol_digits acc (ds @ rest) =
     strtol_digits (foldl (\<lambda>a c. a * 10 + digit_val c) acc ds) rest"
  by (induction ds arbitrary: acc) simp_all

lemma foldl_dec:
  "foldl (\<lambda>a c. a * 10 + digit_val c) acc (dec n) = acc * 10 ^ length (dec n) + int n"
proof (induction n arbitrary: acc rule: dec.induct)
  case (1 n)
  show ?case
  proof (cases "n < 10")
    case True
    then show ?thesis
      by (simp add: dec.simps[of n] digit_val_char_of)
  next
    case False
    have "int n = int (n div 10 * 10 + n mod 10)"
      by simp
    then have "int n = int (n div 10) * 10 + int (n mod 10)"
      by (simp only: of_nat_add of_nat_mult of_nat_numeral)
    then show ?thesis
      using False 1[OF False]
      by (simp add: dec.simps[of n] digit_val_char_of algebra_simps del: of_nat_mod of_nat_div)
  qed
qed

text \<open>\<open>strtol\<close> reads back what \<open>%d\<close> printed, up to the first character after it.\<close>

lemma strtol_dec:
  assumes "\<not> isdigit (deref rest)" "int n \<le> LONG_MAX"
  shows "strtol (dec n @ rest) = (int n, rest)"
proof -
  obtain c cs where d: "dec n = c # cs"
    using dec_nonempty[of n] by (cases "dec n") auto
  then have c: "isdigit c"
    using dec_digits[of c n] by simp
  then have ns: "\<not> isspace c" "c \<noteq> CHR ''-''" "c \<noteq> CHR ''+''"
    by (auto simp: isdigit_def isspace_def)
  have "strtol_digits 0 (dec n @ rest) = (int n, rest)"
    using assms(1) by (simp add: strtol_digits_append dec_digits foldl_dec strtol_digits_stop)
  moreover have "LONG_MIN \<le> int n"
    by (simp add: LONG_MIN_def)
  ultimately show ?thesis
    using d c ns assms(2) by (simp add: strtol_def deref_def Let_def)
qed

subsection \<open>Parsing a rendered address\<close>

lemma pton_loop_step:
  assumes "idx < 3" "b < 256"
  shows "pton_loop e idx (dec b @ CHR ''.'' # rest) n =
         pton_loop e (Suc idx) rest (store_u8 e n idx (word_of_nat b))"
proof -
  have "strtol (dec b @ CHR ''.'' # rest) = (int b, CHR ''.'' # rest)"
    using assms(2) by (intro strtol_dec) (simp_all add: deref_def LONG_MAX_def)
  moreover have "CHR ''.'' # rest \<noteq> dec b @ CHR ''.'' # rest"
    using dec_nonempty[of b] by simp
  ultimately show ?thesis
    using assms by (subst pton_loop.simps) (simp add: deref_def)
qed

lemma pton_loop_last:
  assumes "b < 256" "deref rest = NUL"
  shows "pton_loop e 3 (dec b @ rest) n = (0, 4, store_u8 e n 3 (word_of_nat b))"
proof -
  have "strtol (dec b @ rest) = (int b, rest)"
    using assms by (intro strtol_dec) (simp_all add: LONG_MAX_def)
  moreover have "rest \<noteq> dec b @ rest"
    using dec_nonempty[of b] by simp
  ultimately show ?thesis
    using assms by (subst pton_loop.simps) (simp add: pton_loop.simps[of e 4])
qed

lemma pton_dotted:
  assumes "deref rest = NUL"
  shows "ip_addr_pton e (dotted e a @ rest) n0 = (0, a)"
proof -
  let ?b = "\<lambda>i. load_u8 e a i"
  let ?d = "\<lambda>i. dec (unat (load_u8 e a i))"
  let ?n1 = "store_u8 e n0 0 (?b 0)"
  let ?n2 = "store_u8 e ?n1 1 (?b 1)"
  let ?n3 = "store_u8 e ?n2 2 (?b 2)"
  let ?n4 = "store_u8 e ?n3 3 (?b 3)"
  have "pton_loop e 0 (dotted e a @ rest) n0 =
        pton_loop e 1 (?d 1 @ CHR ''.'' # ?d 2 @ CHR ''.'' # ?d 3 @ rest) ?n1"
    using pton_loop_step[of 0 "unat (?b 0)" e _ n0]
    by (simp add: dotted_def unat_u8_less)
  also have "\<dots> = pton_loop e 2 (?d 2 @ CHR ''.'' # ?d 3 @ rest) ?n2"
    using pton_loop_step[of 1 "unat (?b 1)" e _ ?n1]
    by (simp add: unat_u8_less numeral_2_eq_2)
  also have "\<dots> = pton_loop e 3 (?d 3 @ rest) ?n3"
    using pton_loop_step[of 2 "unat (?b 2)" e _ ?n2]
    by (simp add: unat_u8_less numeral_3_eq_3)
  also have "\<dots> = (0, 4, ?n4)"
    using pton_loop_last[of "unat (?b 3)" rest e ?n3] assms
    by (simp add: unat_u8_less)
  finally have "pton_loop e 0 (dotted e a @ rest) n0 = (0, 4, ?n4)" .
  moreover have "?n4 = a"
  proof (rule word32_octets_eq[of e])
    fix i :: nat
    assume "i < 4"
    then consider "i = 0" | "i = 1" | "i = 2" | "i = 3"
      by linarith
    then show "load_u8 e ?n4 i = load_u8 e a i"
      by cases (simp_all add: load_store_u8)
  qed
  ultimately show ?thesis
    by (simp add: ip_addr_pton_def)
qed

lemma dotted_length: "length (dotted e a) \<le> 15"
proof -
  have "length (dec (unat (load_u8 e a i))) \<le> 3" for i
    using unat_u8_less[of "load_u8 e a i"] by (intro dec_length) simp
  from this[of 0] this[of 1] this[of 2] this[of 3] show ?thesis
    by (simp add: dotted_def)
qed

lemma dotted_no_NUL: "NUL \<notin> set (dotted e a)"
  by (auto simp: dotted_def NUL_def dest!: dec_digits simp: isdigit_def)

text \<open>The definitions that evaluate the codec on a concrete text or address.\<close>

lemmas pton_eval =
  ip_addr_pton_def pton_loop.simps strtol_def Let_def deref_def isspace_def isdigit_def
  digit_val_def NUL_def LONG_MAX_def LONG_MIN_def store_u8_def octet_shift_def

lemma char_of_48_49: "char_of (48 :: nat) = CHR ''0''" "char_of (49 :: nat) = CHR ''1''"
  by code_simp+

lemma dotted_10_0_0_1: "dotted e (load32 e 10 0 0 1) = ''10.0.0.1''"
proof -
  have "load_u8 e (load32 e 10 0 0 1) 0 = 10" "load_u8 e (load32 e 10 0 0 1) 1 = 0"
    "load_u8 e (load32 e 10 0 0 1) 2 = 0" "load_u8 e (load32 e 10 0 0 1) 3 = 1"
    using load_u8_load32[of 0 e 10 0 0 1] load_u8_load32[of 1 e 10 0 0 1]
      load_u8_load32[of 2 e 10 0 0 1] load_u8_load32[of 3 e 10 0 0 1]
    by simp_all
  then show ?thesis
    by (simp add: dotted_def dec.simps char_of_48_49)
qed

subsection \<open>Round trip\<close>

text \<open>
  C9: for every 32-bit address \<open>a\<close>, the text \<open>ip_addr_ntop\<close> stores for a bound of at
  least 16 bytes is parsed back by \<open>ip_addr_pton\<close> with return code 0 and the result
  \<open>a\<close>, whatever the output object held before.
\<close>

theorem pton_ntop_roundtrip:
  assumes "16 \<le> sz"
  shows "ip_addr_pton e (snd (ip_addr_ntop e a p sz)) n0 = (0, a)"
proof -
  have "snd (ip_addr_ntop e a p sz) = dotted e a @ [NUL]"
    using assms dotted_length[of e a] by (simp add: ip_addr_ntop_def snprintf_def)
  then show ?thesis
    by (simp add: pton_dotted deref_def)
qed

theorem pton_ntop_roundtrip_witness:
  "(16::nat) \<le> 16 \<and>
   ip_addr_pton LittleEndian (snd (ip_addr_ntop LittleEndian 0xC0A8010A 64 16)) 7 =
     (0, 0xC0A8010A)"
  using pton_ntop_roundtrip[of 16 LittleEndian "0xC0A8010A" 64 7] by simp

subsection \<open>Formatting into a bounded buffer\<close>

text \<open>
  C10: for every address and every bound, \<open>ip_addr_ntop\<close> has one outcome: it returns
  the pointer it was given. With bound 0 it stores nothing; with a bound of at least 1
  it stores the first \<open>sz - 1\<close> characters of the rendering and a NUL, so the text at
  \<open>p\<close> is the rendering cut to \<open>sz - 1\<close> characters, and the whole rendering when the
  bound exceeds its length.
\<close>

theorem ntop_truncates_and_terminates:
  "fst (ip_addr_ntop e n p sz) = p \<and>
   (sz = 0 \<longrightarrow> snd (ip_addr_ntop e n p sz) = []) \<and>
   (0 < sz \<longrightarrow>
      snd (ip_addr_ntop e n p sz) = take (sz - 1) (dotted e n) @ [NUL] \<and>
      cstr (snd (ip_addr_ntop e n p sz)) = take (sz - 1) (dotted e n)) \<and>
   (length (dotted e n) < sz \<longrightarrow> cstr (snd (ip_addr_ntop e n p sz)) = dotted e n)"
proof -
  have "\<forall>c\<in>set (take (sz - 1) (dotted e n)). c \<noteq> NUL"
    using dotted_no_NUL[of e n] by (auto dest: in_set_takeD)
  then have "cstr (take (sz - 1) (dotted e n) @ [NUL]) = take (sz - 1) (dotted e n)"
    by (simp add: cstr_def takeWhile_append2)
  then show ?thesis
    by (auto simp: ip_addr_ntop_def snprintf_def)
qed

theorem ntop_truncates_and_terminates_witness:
  "fst (ip_addr_ntop LittleEndian (load32 LittleEndian 10 0 0 1) 64 4) = 64 \<and>
   (0::nat) < 4 \<and>
   snd (ip_addr_ntop LittleEndian (load32 LittleEndian 10 0 0 1) 64 4) = ''10.'' @ [NUL] \<and>
   cstr (snd (ip_addr_ntop LittleEndian (load32 LittleEndian 10 0 0 1) 64 4)) = ''10.'' \<and>
   length (dotted LittleEndian (load32 LittleEndian 10 0 0 1)) < 16 \<and>
   cstr (snd (ip_addr_ntop LittleEndian (load32 LittleEndian 10 0 0 1) 64 16)) = ''10.0.0.1''"
  using ntop_truncates_and_terminates[of LittleEndian "load32 LittleEndian 10 0 0 1" 64 4]
    ntop_truncates_and_terminates[of LittleEndian "load32 LittleEndian 10 0 0 1" 64 16]
  by (simp add: dotted_10_0_0_1 cstr_def NUL_def)

section \<open>The interface registry\<close>

subsection \<open>Allocation\<close>

lemma pton_loop_rc: "pton_loop e idx sp n = (rc, k, n') \<Longrightarrow> rc = 0 \<or> rc = - 1"
proof (induction e idx sp n rule: pton_loop.induct)
  case (1 e idx sp n)
  show ?case
  proof (cases "idx < 4")
    case False
    then show ?thesis
      using "1.prems" by (simp add: pton_loop.simps[of e idx])
  next
    case True
    obtain ret ep where s: "strtol sp = (ret, ep)"
      by (cases "strtol sp")
    show ?thesis
      using "1.prems" True s "1.IH"[OF True s[symmetric] refl]
      by (subst (asm) pton_loop.simps) (auto split: if_splits)
  qed
qed

lemma ip_addr_pton_rc: "fst (ip_addr_pton e p n) = 0 \<or> fst (ip_addr_pton e p n) = - 1"
  using pton_loop_rc[of e 0 p n]
  by (cases "pton_loop e 0 p n") (auto simp: ip_addr_pton_def)

text \<open>
  C7: \<open>ip_iface_alloc\<close> on a new object at a free address. When either text fails to
  parse it returns \<open>NULL\<close> and the objects in memory are those before the call, the new
  one released; so it does when the allocator fails. When both texts parse it returns the
  object, holding the two parsed addresses and, as broadcast address,
  \<open>(unicast & netmask) | ~netmask\<close>.
\<close>

theorem ip_iface_alloc_result:
  assumes "h iface = None"
  shows "ip_iface_alloc e None uni0 mask0 ut mt h = (None, h) \<and>
         (fst (ip_addr_pton e ut uni0) \<noteq> 0 \<or> fst (ip_addr_pton e mt mask0) \<noteq> 0 \<longrightarrow>
            ip_iface_alloc e (Some (iface, obj0)) uni0 mask0 ut mt h = (None, h)) \<and>
         (fst (ip_addr_pton e ut uni0) = 0 \<and> fst (ip_addr_pton e mt mask0) = 0 \<longrightarrow>
            (\<exists>obj. ip_iface_alloc e (Some (iface, obj0)) uni0 mask0 ut mt h =
                     (Some iface, h(iface \<mapsto> obj)) \<and>
               unicast obj = snd (ip_addr_pton e ut uni0) \<and>
               netmask obj = snd (ip_addr_pton e mt mask0) \<and>
               broadcast obj = (unicast obj AND netmask obj) OR NOT (netmask obj)))"
proof -
  have fr: "memory_free iface (h(iface \<mapsto> x)) = h" for x
    using assms by (auto simp: memory_free_def)
  obtain r1 uni where p1: "ip_addr_pton e ut uni0 = (r1, uni)"
    by (cases "ip_addr_pton e ut uni0")
  obtain r2 mask where p2: "ip_addr_pton e mt mask0 = (r2, mask)"
    by (cases "ip_addr_pton e mt mask0")
  have r: "r1 = 0 \<or> r1 = - 1" "r2 = 0 \<or> r2 = - 1"
    using ip_addr_pton_rc[of e ut uni0] ip_addr_pton_rc[of e mt mask0] p1 p2 by auto
  show ?thesis
    using r by (auto simp: ip_iface_alloc_def p1 p2 fr Let_def)
qed

lemma pton_examples:
  "ip_addr_pton LittleEndian ''192.168.1.10'' 0 = (0, load32 LittleEndian 192 168 1 10)"
  "ip_addr_pton LittleEndian ''255.255.255.0'' 0 = (0, load32 LittleEndian 255 255 255 0)"
  "fst (ip_addr_pton LittleEndian ''192.168.1'' 0) = - 1"
  by (simp_all add: pton_eval load32_def)

lemma broadcast_example:
  "(load32 LittleEndian 192 168 1 10 AND load32 LittleEndian 255 255 255 0)
     OR NOT (load32 LittleEndian 255 255 255 0) = load32 LittleEndian 192 168 1 255"
  by (simp add: load32_def store_u8_def octet_shift_def)

theorem ip_iface_alloc_result_witness:
  "(Map.empty :: ptr \<rightharpoonup> ip_iface) 16 = None \<and>
   fst (ip_addr_pton LittleEndian ''192.168.1.10'' 0) = 0 \<and>
   fst (ip_addr_pton LittleEndian ''255.255.255.0'' 0) = 0 \<and>
   (\<exists>obj. ip_iface_alloc LittleEndian (Some (16, fresh_obj)) 0 0
             ''192.168.1.10'' ''255.255.255.0'' Map.empty = (Some 16, [16 \<mapsto> obj]) \<and>
          unicast obj = load32 LittleEndian 192 168 1 10 \<and>
          netmask obj = load32 LittleEndian 255 255 255 0 \<and>
          broadcast obj = load32 LittleEndian 192 168 1 255) \<and>
   fst (ip_addr_pton LittleEndian ''192.168.1'' 0) \<noteq> 0 \<and>
   ip_iface_alloc LittleEndian (Some (16, fresh_obj)) 0 0
     ''192.168.1'' ''255.255.255.0'' Map.empty = (None, Map.empty)"
proof -
  have good: "ip_iface_alloc LittleEndian None 0 0 ''192.168.1.10'' ''255.255.255.0''
        Map.empty = (None, Map.empty) \<and>
      (fst (ip_addr_pton LittleEndian ''192.168.1.10'' 0) \<noteq> 0 \<or>
       fst (ip_addr_pton LittleEndian ''255.255.255.0'' 0) \<noteq> 0 \<longrightarrow>
         ip_iface_alloc LittleEndian (Some (16, fresh_obj)) 0 0
           ''192.168.1.10'' ''255.255.255.0'' Map.empty = (None, Map.empty)) \<and>
      (fst (ip_addr_pton LittleEndian ''192.168.1.10'' 0) = 0 \<and>
       fst (ip_addr_pton LittleEndian ''255.255.255.0'' 0) = 0 \<longrightarrow>
         (\<exists>obj. ip_iface_alloc LittleEndian (Some (16, fresh_obj)) 0 0
                  ''192.168.1.10'' ''255.255.255.0'' Map.empty = (Some 16, [16 \<mapsto> obj]) \<and>
            unicast obj = snd (ip_addr_pton LittleEndian ''192.168.1.10'' 0) \<and>
            netmask obj = snd (ip_addr_pton LittleEndian ''255.255.255.0'' 0) \<and>
            broadcast obj = (unicast obj AND netmask obj) OR NOT (netmask obj)))"
    by (rule ip_iface_alloc_result) simp
  have bad: "ip_iface_alloc LittleEndian None 0 0 ''192.168.1'' ''255.255.255.0''
        Map.empty = (None, Map.empty) \<and>
      (fst (ip_addr_pton LittleEndian ''192.168.1'' 0) \<noteq> 0 \<or>
       fst (ip_addr_pton LittleEndian ''255.255.255.0'' 0) \<noteq> 0 \<longrightarrow>
         ip_iface_alloc LittleEndian (Some (16, fresh_obj)) 0 0
           ''192.168.1'' ''255.255.255.0'' Map.empty = (None, Map.empty)) \<and>
      (fst (ip_addr_pton LittleEndian ''192.168.1'' 0) = 0 \<and>
       fst (ip_addr_pton LittleEndian ''255.255.255.0'' 0) = 0 \<longrightarrow>
         (\<exists>obj. ip_iface_alloc LittleEndian (Some (16, fresh_obj)) 0 0
                  ''192.168.1'' ''255.255.255.0'' Map.empty = (Some 16, [16 \<mapsto> obj]) \<and>
            unicast obj = snd (ip_addr_pton LittleEndian ''192.168.1'' 0) \<and>
            netmask obj = snd (ip_addr_pton LittleEndian ''255.255.255.0'' 0) \<and>
            broadcast obj = (unicast obj AND netmask obj) OR NOT (netmask obj)))"
    by (rule ip_iface_alloc_result) simp
  from good obtain obj where
    obj: "ip_iface_alloc LittleEndian (Some (16, fresh_obj)) 0 0
        ''192.168.1.10'' ''255.255.255.0'' Map.empty = (Some 16, [16 \<mapsto> obj])"
      "unicast obj = load32 LittleEndian 192 168 1 10"
      "netmask obj = load32 LittleEndian 255 255 255 0"
      "broadcast obj = (unicast obj AND netmask obj) OR NOT (netmask obj)"
    by (auto simp: pton_examples)
  from obj(2,3,4) have "broadcast obj = load32 LittleEndian 192 168 1 255"
    by (simp add: broadcast_example)
  with obj(1,2,3) have "\<exists>obj. ip_iface_alloc LittleEndian (Some (16, fresh_obj)) 0 0
        ''192.168.1.10'' ''255.255.255.0'' Map.empty = (Some 16, [16 \<mapsto> obj]) \<and>
      unicast obj = load32 LittleEndian 192 168 1 10 \<and>
      netmask obj = load32 LittleEndian 255 255 255 0 \<and>
      broadcast obj = load32 LittleEndian 192 168 1 255"
    by blast
  moreover from bad have "ip_iface_alloc LittleEndian (Some (16, fresh_obj)) 0 0
      ''192.168.1'' ''255.255.255.0'' Map.empty = (None, Map.empty)"
    by (simp add: pton_examples)
  ultimately show ?thesis
    by (simp add: pton_examples)
qed

subsection \<open>Registration and lookup\<close>

text \<open>
  \<open>ip_iface_register\<close> stores to \<open>iface->next\<close> and \<open>dev->ifaces\<close> only; the list
  head \<open>ifaces\<close> that \<open>ip_iface_select\<close> starts from is never assigned.
\<close>

lemma ip_iface_register_ifaces:
  "ip_iface_register add d iface st = Some (rc, st') \<Longrightarrow> ifaces st' = ifaces st"
  by (auto simp: ip_iface_register_def Let_def split: option.splits prod.splits if_splits)

lemma setup_ifaces_ifaces:
  "setup_ifaces add rs st = Some st' \<Longrightarrow> ifaces st' = ifaces st"
proof (induction rs arbitrary: st)
  case Nil
  then show ?case
    by simp
next
  case (Cons r rs)
  obtain d iface where r: "r = (d, iface)"
    by (cases r)
  from Cons.prems r obtain st1 where 1: "ip_iface_register add d iface st = Some (0, st1)"
    and 2: "setup_ifaces add rs st1 = Some st'"
    by (auto split: option.splits if_splits)
  from Cons.IH[OF 2] ip_iface_register_ifaces[OF 1] show ?case
    by simp
qed

lemma ip_iface_select_empty: "ifaces st = None \<Longrightarrow> ip_iface_select st addr = Some None"
  by (simp add: ip_iface_select_def iface_scan.simps)

lemma register_st0:
  "ip_iface_register net_device_add_iface 32 16 (st0 e) =
     Some (0, \<lparr>ifaces = None,
               mem = \<lparr>ifc = [16 \<mapsto> (test_iface e)\<lparr>nif_next := None, iface_next := Some 16\<rparr>],
                      dev = [32 \<mapsto> \<lparr>dev_name = ''net0'', dev_ifaces = Some 16\<rparr>]\<rparr>\<rparr>)"
  by (simp add: ip_iface_register_def net_device_add_iface_def st0_def mem0_def
      family_scan.simps Let_def)

text \<open>
  C3: the claim is that registered interfaces are put on the registry's global list and
  that a lookup returns the first registered interface owning the address. In the code,
  from the initial state, whatever \<open>net_device_add_iface\<close> does and whichever interfaces
  a setup phase registers with success, the global list stays empty and every lookup
  returns \<open>NULL\<close>.
\<close>

theorem ip_iface_select_after_setup:
  assumes "ifaces st = None" and "setup_ifaces add rs st = Some st'"
  shows "ifaces st' = None \<and> ip_iface_select st' addr = Some None"
  using assms by (simp add: setup_ifaces_ifaces ip_iface_select_empty)

theorem ip_iface_select_after_setup_witness:
  "ifaces (st0 LittleEndian) = None \<and>
   (\<exists>st'. setup_ifaces net_device_add_iface [(32, 16)] (st0 LittleEndian) = Some st' \<and>
      map_option unicast (ifc (mem st') 16) = Some (load32 LittleEndian 192 168 1 10) \<and>
      map_option dev_ifaces (dev (mem st') 32) = Some (Some 16) \<and>
      ip_iface_select st' (load32 LittleEndian 192 168 1 10) = Some None)"
proof -
  let ?st = "\<lparr>ifaces = None,
      mem = \<lparr>ifc = [16 \<mapsto> (test_iface LittleEndian)\<lparr>nif_next := None, iface_next := Some 16\<rparr>],
             dev = [32 \<mapsto> \<lparr>dev_name = ''net0'', dev_ifaces = Some 16\<rparr>]\<rparr>\<rparr>"
  have init: "ifaces (st0 LittleEndian) = None"
    by (simp add: st0_def)
  have run: "setup_ifaces net_device_add_iface [(32, 16)] (st0 LittleEndian) = Some ?st"
    by (simp add: register_st0)
  have "map_option unicast (ifc (mem ?st) 16) = Some (load32 LittleEndian 192 168 1 10)"
    and "map_option dev_ifaces (dev (mem ?st) 32) = Some (Some 16)"
    by (simp_all add: test_iface_def)
  with init run ip_iface_select_after_setup[OF init run] show ?thesis
    by blast
qed

section \<open>The texts \<open>ip_addr_pton\<close> accepts\<close>

subsection \<open>What \<open>strtol\<close> reads\<close>

lemma strtol_digits_split:
  "strtol_digits acc s =
     (foldl (\<lambda>a c. a * 10 + digit_val c) acc (takeWhile isdigit s), dropWhile isdigit s)"
  by (induction s arbitrary: acc) simp_all

lemma isspace_not_digit: "isspace c \<Longrightarrow> \<not> isdigit c"
  and sign_not_digit: "\<not> isdigit CHR ''-''" "\<not> isdigit CHR ''+''"
  and sign_not_space: "\<not> isspace CHR ''-''" "\<not> isspace CHR ''+''"
  and NUL_not_space: "\<not> isspace NUL"
  by (auto simp: isspace_def isdigit_def NUL_def)

lemma deref_Cons [simp]: "deref (c # cs) = c" and deref_Nil [simp]: "deref [] = NUL"
  by (simp_all add: deref_def)



text \<open>\<open>endptr\<close> points into the text \<open>nptr\<close> points to.\<close>

lemma strtol_suffix: "strtol sp = (ret, ep) \<Longrightarrow> suffix ep sp"
proof -
  assume st: "strtol sp = (ret, ep)"
  define s1 where "s1 = dropWhile isspace sp"
  define s2 where "s2 = (if deref s1 = CHR ''-'' \<or> deref s1 = CHR ''+'' then tl s1 else s1)"
  have "suffix s1 sp"
    unfolding s1_def by (rule suffix_dropWhile)
  moreover have "suffix s2 s1"
    unfolding s2_def by (simp add: suffix_tl)
  moreover have "suffix (dropWhile isdigit s2) s2"
    by (rule suffix_dropWhile)
  ultimately have "suffix (dropWhile isdigit s2) sp"
    by (meson suffix_order.trans)
  moreover have "ep = sp \<or> ep = dropWhile isdigit s2"
    using st unfolding strtol_def s1_def[symmetric] s2_def[symmetric] Let_def
    by (auto simp: strtol_digits_split split: if_splits)
  ultimately show ?thesis
    by auto
qed







lemma octet_text_chars:
  assumes "octet_text a" "c \<in> set a"
  shows "isspace c \<or> isdigit c \<or> c = CHR ''+'' \<or> c = CHR ''-''"
proof -
  from assms(1) obtain ws sg ds where a: "a = ws @ sg @ ds"
    and ws: "\<forall>c\<in>set ws. isspace c" and sg: "sg \<in> {[], ''+'', ''-''}"
    and ds: "\<forall>c\<in>set ds. isdigit c"
    unfolding octet_text_def by blast
  from assms(2) a consider "c \<in> set ws" | "c \<in> set sg" | "c \<in> set ds"
    by auto
  then show ?thesis
  proof cases
    case 1
    with ws show ?thesis by blast
  next
    case 2
    with sg show ?thesis by auto
  next
    case 3
    with ds show ?thesis by blast
  qed
qed

lemma NUL_dot_plain:
  "\<not> isspace NUL" "NUL \<noteq> CHR ''+''" "NUL \<noteq> CHR ''-''"
  "\<not> isspace CHR ''.''"
  by (simp_all add: isspace_def NUL_def)


lemma octet_text_no_dot: "octet_text a \<Longrightarrow> CHR ''.'' \<notin> set a"
  using octet_text_chars[of a "CHR ''.''"] by (auto simp: NUL_dot_plain)

















subsection \<open>Errors of the parser\<close>






end
